theory Spec2Isabelle
  imports Complex_Main
begin

section \<open>Numbers\<close>

text \<open>
  The notebook computes on pandas columns of 64-bit floats. Here the numbers read from the
  input (sizes, heights, modal values) are exact rationals, and a computed cell is either
  such a number or one of the three non-finite values a division by zero can produce.
  The binary rounding error of float64 and the sign of zero are outside this development.
\<close>

datatype fl = Fin rat | PInf | NInf | NaN

text \<open>\<^verbatim>\<open>round(x, 3)\<close> on a float64 or on a Series: scale by 1000, round to the nearest
  integer with ties to the even one, scale back.\<close>

definition round_half_even :: "rat \<Rightarrow> int" where
  "round_half_even x =
     (let f = \<lfloor>x\<rfloor>; d = x - of_int f
      in if d < 1 / 2 then f
         else if 1 / 2 < d then f + 1
         else if even f then f else f + 1)"

definition round3 :: "rat \<Rightarrow> rat" where
  "round3 x = of_int (round_half_even (x * 1000)) / 1000"

fun fl_round3 :: "fl \<Rightarrow> fl" where
  "fl_round3 (Fin x) = Fin (round3 x)"
| "fl_round3 v = v"

text \<open>Division of two finite numbers as numpy does it: no exception, a zero divisor gives
  an infinity or NaN.\<close>

definition fl_div :: "rat \<Rightarrow> rat \<Rightarrow> fl" where
  "fl_div x d =
     (if d \<noteq> 0 then Fin (x / d)
      else if 0 < x then PInf
      else if x < 0 then NInf
      else NaN)"

fun fl_sign :: "fl \<Rightarrow> int option" where
  "fl_sign (Fin x) = Some (if 0 < x then 1 else if x < 0 then - 1 else 0)"
| "fl_sign PInf = Some 1"
| "fl_sign NInf = Some (- 1)"
| "fl_sign NaN = None"

fun fl_times :: "fl \<Rightarrow> fl \<Rightarrow> fl" where
  "fl_times (Fin a) (Fin b) = Fin (a * b)"
| "fl_times a b =
     (case (fl_sign a, fl_sign b) of
        (Some s, Some t) \<Rightarrow>
          (if 0 < s * t then PInf else if s * t < 0 then NInf else NaN)
      | _ \<Rightarrow> NaN)"

fun fl_plus :: "fl \<Rightarrow> fl \<Rightarrow> fl" where
  "fl_plus (Fin a) (Fin b) = Fin (a + b)"
| "fl_plus NaN _ = NaN"
| "fl_plus _ NaN = NaN"
| "fl_plus PInf NInf = NaN"
| "fl_plus NInf PInf = NaN"
| "fl_plus PInf _ = PInf"
| "fl_plus _ PInf = PInf"
| "fl_plus NInf _ = NInf"
| "fl_plus _ NInf = NInf"

text \<open>\<^verbatim>\<open>Series.sum()\<close> skips NaN cells and is 0 on an empty column.\<close>

definition fl_sum :: "fl list \<Rightarrow> fl" where
  "fl_sum cs = foldl fl_plus (Fin 0) (filter (\<lambda>c. c \<noteq> NaN) cs)"

section \<open>Errors\<close>

text \<open>The exceptions the three functions can raise, and \<open>DegenerateInputError\<close>,
  a name of the specification's error taxonomy that no path of the notebook constructs.\<close>

datatype error =
    IndexError
  | KeyError
  | ValueError
  | AttributeError
  | FileNotFoundError
  | DegenerateInputError

section \<open>Peak extractor\<close>

text \<open>
  \<^verbatim>\<open>extract_files\<close> only moves whole columns, so a table is modelled here by its named
  columns, in order, each holding the cells of that column in row order. The file system is
  a partial map from paths to the tables \<^verbatim>\<open>pd.read_csv\<close> would parse.
\<close>

datatype cell = Str string | Num rat

type_synonym raw_table = "(string \<times> cell list) list"

text \<open>One row of the sample key (read without a header): columns 0 to 3.\<close>

record RegionDescriptor =
  source_path :: string
  region_name :: cell
  modal_height :: rat
  modal_size :: rat

text \<open>\<^verbatim>\<open>df[[c1, ..., cn]]\<close>: the listed columns in the listed order, KeyError if one is
  missing.\<close>

fun select_columns :: "string list \<Rightarrow> raw_table \<Rightarrow> error + raw_table" where
  "select_columns [] df = Inr []"
| "select_columns (c # cs) df =
     (case map_of df c of
        None \<Rightarrow> Inl KeyError
      | Some col \<Rightarrow>
          (case select_columns cs df of
             Inl e \<Rightarrow> Inl e
           | Inr rest \<Rightarrow> Inr ((c, col) # rest)))"

text \<open>\<^verbatim>\<open>df.columns = names\<close>: positional renaming, ValueError on a length mismatch.\<close>

definition rename_columns :: "string list \<Rightarrow> raw_table \<Rightarrow> error + raw_table" where
  "rename_columns names df =
     (if length names = length df then Inr (zip names (map snd df)) else Inl ValueError)"

definition nrows :: "raw_table \<Rightarrow> nat" where
  "nrows df = (case df of [] \<Rightarrow> 0 | (_, col) # _ \<Rightarrow> length col)"

text \<open>\<^verbatim>\<open>df[c] = scalar\<close>: every cell of column \<open>c\<close> becomes the scalar; a new column
  is appended when \<open>c\<close> is not there yet.\<close>

definition assign_scalar :: "string \<Rightarrow> cell \<Rightarrow> raw_table \<Rightarrow> raw_table" where
  "assign_scalar c v df =
     (if c \<in> fst ` set df
      then map (\<lambda>(n, col). if n = c then (n, replicate (nrows df) v) else (n, col)) df
      else df @ [(c, replicate (nrows df) v)])"

definition extract_one ::
  "(string \<rightharpoonup> raw_table) \<Rightarrow> RegionDescriptor \<Rightarrow> error + raw_table" where
  "extract_one fs d =
     (case fs (source_path d) of
        None \<Rightarrow> Inl FileNotFoundError
      | Some raw \<Rightarrow>
          (case select_columns
                  [''Sample File Name'', ''Size'', ''Height'', ''Area'', ''Data Point''] raw of
             Inl e \<Rightarrow> Inl e
           | Inr sel \<Rightarrow>
               (case rename_columns
                       [''Sample_Name'', ''Size'', ''Height'', ''Area'', ''Data_Point''] sel of
                  Inl e \<Rightarrow> Inl e
                | Inr ren \<Rightarrow> Inr (assign_scalar ''Sample_Name'' (region_name d) ren))))"

text \<open>The loop over \<^verbatim>\<open>range(len(file_list))\<close>: the first failing file aborts the run.\<close>

fun extract_files ::
  "(string \<rightharpoonup> raw_table) \<Rightarrow> RegionDescriptor list \<Rightarrow> error + raw_table list" where
  "extract_files fs [] = Inr []"
| "extract_files fs (d # sample_df) =
     (case extract_one fs d of
        Inl e \<Rightarrow> Inl e
      | Inr df \<Rightarrow>
          (case extract_files fs sample_df of
             Inl e \<Rightarrow> Inl e
           | Inr df_list \<Rightarrow> Inr (df # df_list)))"

section \<open>Peak tables as labelled rows\<close>

text \<open>
  The selector and the calculator read \<open>Height\<close> and \<open>Size\<close> as numbers and address
  rows by index label. A table is the list of its rows in table order, each with its index
  label (\<^verbatim>\<open>read_csv\<close> labels the rows 0, 1, 2, ...; a boolean mask keeps the labels of the
  rows it keeps), and the list of the column names it has. A row holds a cell for each of
  the three derived columns; the cell counts only while the column is in \<open>columns\<close>.
  This is the same pandas object as the extractor's table of columns, read row by row; the
  reading is not a step of the program.
\<close>

record PeakRecord =
  Sample_Name :: cell
  Size :: rat
  Height :: rat
  Area :: rat
  Data_Point :: rat
  normalized_Height :: fl
  change_from_main :: fl
  normalized_Peak :: fl

record DataFrame =
  rows :: "(nat \<times> PeakRecord) list"
  columns :: "string list"

definition add_column :: "string \<Rightarrow> string list \<Rightarrow> string list" where
  "add_column c cs = (if c \<in> set cs then cs else cs @ [c])"

text \<open>The table \<^verbatim>\<open>read_csv\<close> and the column projection hand to the selector: rows
  labelled by position, the five base columns, derived cells unset.\<close>

definition base_columns :: "string list" where
  "base_columns = [''Sample_Name'', ''Size'', ''Height'', ''Area'', ''Data_Point'']"

definition peak_row :: "cell \<Rightarrow> rat \<Rightarrow> rat \<Rightarrow> rat \<Rightarrow> rat \<Rightarrow> PeakRecord" where
  "peak_row n s h a p =
     \<lparr>Sample_Name = n, Size = s, Height = h, Area = a, Data_Point = p,
      normalized_Height = NaN, change_from_main = NaN, normalized_Peak = NaN\<rparr>"

definition peak_table :: "PeakRecord list \<Rightarrow> DataFrame" where
  "peak_table rs = \<lparr>rows = zip [0 ..< length rs] rs, columns = base_columns\<rparr>"

section \<open>Expansion selector\<close>

text \<open>The three comparisons of \<^verbatim>\<open>exp_peak_subset\<close>, joined by \<^verbatim>\<open>&\<close>:
  \<^verbatim>\<open>Height >= relative_threshold[item]\<close>, \<^verbatim>\<open>Height <= modal_height[item]\<close>,
  \<^verbatim>\<open>Size > modal_size[item]\<close>; and \<^verbatim>\<open>df[mask]\<close>, which keeps the rows where the mask
  holds, in order, with their labels.\<close>

definition expansion_mask :: "rat \<Rightarrow> rat \<Rightarrow> rat \<Rightarrow> PeakRecord \<Rightarrow> bool" where
  "expansion_mask relative_threshold mh ms r \<longleftrightarrow>
     Height r \<ge> relative_threshold \<and> Height r \<le> mh \<and> Size r > ms"

definition boolean_mask :: "(PeakRecord \<Rightarrow> bool) \<Rightarrow> DataFrame \<Rightarrow> DataFrame" where
  "boolean_mask m df = df\<lparr>rows := filter (\<lambda>(l, r). m r) (rows df)\<rparr>"

text \<open>The loop over \<^verbatim>\<open>range(len(modal_height))\<close>, with
  \<^verbatim>\<open>relative_threshold = modal_height[item] * 0.01\<close>; \<^verbatim>\<open>extracted_files[item]\<close> raises
  IndexError when there are fewer tables than rows of the sample key.\<close>

fun subset_loop ::
  "rat list \<Rightarrow> rat list \<Rightarrow> DataFrame list \<Rightarrow> error + DataFrame list" where
  "subset_loop (mh # mhs) (ms # mss) (df # dfs) =
     (let relative_threshold = mh * (1 / 100)
      in case subset_loop mhs mss dfs of
           Inl e \<Rightarrow> Inl e
         | Inr sample_subset \<Rightarrow>
             Inr (boolean_mask (expansion_mask relative_threshold mh ms) df # sample_subset))"
| "subset_loop (mh # mhs) (ms # mss) [] = Inl IndexError"
| "subset_loop (mh # mhs) [] dfs = Inl IndexError"
| "subset_loop [] mss dfs = Inr []"

definition exp_peak_subset ::
  "RegionDescriptor list \<Rightarrow> DataFrame list \<Rightarrow> error + (DataFrame list \<times> rat list)" where
  "exp_peak_subset sample_df extracted_files =
     (let mh = map modal_height sample_df;
          ms = map modal_size sample_df
      in case subset_loop mh ms extracted_files of
           Inl e \<Rightarrow> Inl e
         | Inr sample_subset \<Rightarrow> Inr (sample_subset, mh))"

section \<open>Instability index calculator\<close>

subsection \<open>Column access\<close>

text \<open>\<^verbatim>\<open>df.Height.sum()\<close>\<close>

definition Height_sum :: "DataFrame \<Rightarrow> rat" where
  "Height_sum df = sum_list (map (\<lambda>(l, r). Height r) (rows df))"

text \<open>\<^verbatim>\<open>df['normalized_Height'] = round(df.Height / height_sum, 3)\<close>\<close>

definition set_normalized_Height :: "DataFrame \<Rightarrow> rat \<Rightarrow> DataFrame" where
  "set_normalized_Height df hs =
     df\<lparr>rows := map (\<lambda>(l, r). (l, r\<lparr>normalized_Height := fl_round3 (fl_div (Height r) hs)\<rparr>))
                   (rows df),
        columns := add_column ''normalized_Height'' (columns df)\<rparr>"

text \<open>\<^verbatim>\<open>df.Height.idxmax()\<close>: the label of the first row that holds the largest height;
  ValueError on an empty column. The scan keeps the best row seen so far and replaces it
  only by a strictly higher one.\<close>

fun idxmax_scan :: "nat \<Rightarrow> rat \<Rightarrow> (nat \<times> PeakRecord) list \<Rightarrow> nat" where
  "idxmax_scan best h [] = best"
| "idxmax_scan best h ((l, r) # rs) =
     (if h < Height r then idxmax_scan l (Height r) rs else idxmax_scan best h rs)"

definition idxmax :: "DataFrame \<Rightarrow> error + nat" where
  "idxmax df =
     (case rows df of
        [] \<Rightarrow> Inl ValueError
      | (l, r) # rs \<Rightarrow> Inr (idxmax_scan l (Height r) rs))"

text \<open>\<^verbatim>\<open>df.loc[ii, 'Height']\<close>\<close>

definition loc_Height :: "DataFrame \<Rightarrow> nat \<Rightarrow> error + rat" where
  "loc_Height df ii =
     (case map_of (rows df) ii of
        None \<Rightarrow> Inl KeyError
      | Some r \<Rightarrow> Inr (Height r))"

text \<open>\<^verbatim>\<open>df[df['Height'] == currentHeight].index.values.astype(int)[0]\<close>\<close>

definition index_of_Height :: "DataFrame \<Rightarrow> rat \<Rightarrow> error + nat" where
  "index_of_Height df currentHeight =
     (case map fst (filter (\<lambda>(l, r). Height r = currentHeight) (rows df)) of
        [] \<Rightarrow> Inl IndexError
      | l # _ \<Rightarrow> Inr l)"

text \<open>\<^verbatim>\<open>df.at[ii, c] = v\<close> for the two columns written cell by cell. Writing to a column
  that is not there yet creates it, filled with NaN, before the cell is set.\<close>

definition at_set_change_from_main :: "DataFrame \<Rightarrow> nat \<Rightarrow> fl \<Rightarrow> DataFrame" where
  "at_set_change_from_main df ii v =
     df\<lparr>rows := map (\<lambda>(l, r).
                     (l, if l = ii then r\<lparr>change_from_main := v\<rparr>
                         else if ''change_from_main'' \<in> set (columns df) then r
                         else r\<lparr>change_from_main := NaN\<rparr>))
                   (rows df),
        columns := add_column ''change_from_main'' (columns df)\<rparr>"

definition at_set_normalized_Peak :: "DataFrame \<Rightarrow> nat \<Rightarrow> fl \<Rightarrow> DataFrame" where
  "at_set_normalized_Peak df ii v =
     df\<lparr>rows := map (\<lambda>(l, r).
                     (l, if l = ii then r\<lparr>normalized_Peak := v\<rparr>
                         else if ''normalized_Peak'' \<in> set (columns df) then r
                         else r\<lparr>normalized_Peak := NaN\<rparr>))
                   (rows df),
        columns := add_column ''normalized_Peak'' (columns df)\<rparr>"

text \<open>\<^verbatim>\<open>df.at[ii, c]\<close> read: KeyError when the column or the label is missing.\<close>

definition at_normalized_Height :: "DataFrame \<Rightarrow> nat \<Rightarrow> error + fl" where
  "at_normalized_Height df ii =
     (if ''normalized_Height'' \<in> set (columns df)
      then (case map_of (rows df) ii of
              None \<Rightarrow> Inl KeyError
            | Some r \<Rightarrow> Inr (normalized_Height r))
      else Inl KeyError)"

definition at_change_from_main :: "DataFrame \<Rightarrow> nat \<Rightarrow> error + fl" where
  "at_change_from_main df ii =
     (if ''change_from_main'' \<in> set (columns df)
      then (case map_of (rows df) ii of
              None \<Rightarrow> Inl KeyError
            | Some r \<Rightarrow> Inr (change_from_main r))
      else Inl KeyError)"

text \<open>\<^verbatim>\<open>df.normalized_Peak.sum()\<close>: attribute access to a column that does not exist
  raises AttributeError.\<close>

definition normalized_Peak_sum :: "DataFrame \<Rightarrow> error + fl" where
  "normalized_Peak_sum df =
     (if ''normalized_Peak'' \<in> set (columns df)
      then Inr (fl_sum (map (\<lambda>(l, r). normalized_Peak r) (rows df)))
      else Inl AttributeError)"

subsection \<open>The four loops of \<^verbatim>\<open>calc_instability_index\<close>\<close>

text \<open>First loop: the height sums and the normalized heights. \<^verbatim>\<open>modal_height[item]\<close>
  raises IndexError when the list of modal heights is too short.\<close>

fun normalize_loop ::
  "DataFrame list \<Rightarrow> rat list \<Rightarrow> error + (DataFrame list \<times> rat list)" where
  "normalize_loop [] mhs = Inr ([], [])"
| "normalize_loop (df # dfs) [] = Inl IndexError"
| "normalize_loop (df # dfs) (mh # mhs) =
     (let hs = Height_sum df + mh
      in case normalize_loop dfs mhs of
           Inl e \<Rightarrow> Inl e
         | Inr (dfs', height_sum) \<Rightarrow> Inr (set_normalized_Height df hs # dfs', hs # height_sum))"

text \<open>Second loop, for one table: the body runs once for each label \<^verbatim>\<open>iterrows()\<close>
  yields and updates the table in place.\<close>

fun change_loop :: "nat list \<Rightarrow> DataFrame \<Rightarrow> error + DataFrame" where
  "change_loop [] df = Inr df"
| "change_loop (ii # iis) df =
     (case idxmax df of
        Inl e \<Rightarrow> Inl e
      | Inr maxHeightIndex \<Rightarrow>
          (case loc_Height df ii of
             Inl e \<Rightarrow> Inl e
           | Inr currentHeight \<Rightarrow>
               (case index_of_Height df currentHeight of
                  Inl e \<Rightarrow> Inl e
                | Inr currentIndex \<Rightarrow>
                    change_loop iis
                      (at_set_change_from_main df ii
                         (Fin (of_int (int currentIndex - int maxHeightIndex + 1)))))))"

text \<open>Third loop, for one table.\<close>

fun peak_loop :: "nat list \<Rightarrow> DataFrame \<Rightarrow> error + DataFrame" where
  "peak_loop [] df = Inr df"
| "peak_loop (ii # iis) df =
     (case at_normalized_Height df ii of
        Inl e \<Rightarrow> Inl e
      | Inr nh \<Rightarrow>
          (case at_change_from_main df ii of
             Inl e \<Rightarrow> Inl e
           | Inr c \<Rightarrow>
               peak_loop iis (at_set_normalized_Peak df ii (fl_round3 (fl_times nh c)))))"

text \<open>Fourth loop, for one table.\<close>

definition instabilityValue :: "DataFrame \<Rightarrow> error + fl" where
  "instabilityValue df =
     (case normalized_Peak_sum df of
        Inl e \<Rightarrow> Inl e
      | Inr s \<Rightarrow> Inr (fl_round3 s))"

text \<open>A loop over the tables of the list, one after the other, that stops at the first
  exception.\<close>

fun for_each :: "('a \<Rightarrow> error + 'b) \<Rightarrow> 'a list \<Rightarrow> error + 'b list" where
  "for_each f [] = Inr []"
| "for_each f (x # xs) =
     (case f x of
        Inl e \<Rightarrow> Inl e
      | Inr y \<Rightarrow>
          (case for_each f xs of
             Inl e \<Rightarrow> Inl e
           | Inr ys \<Rightarrow> Inr (y # ys)))"

definition index_labels :: "DataFrame \<Rightarrow> nat list" where
  "index_labels df = map fst (rows df)"

definition calc_instability_index ::
  "DataFrame list \<Rightarrow> rat list \<Rightarrow> error + (DataFrame list \<times> fl list)" where
  "calc_instability_index peak_subset_list mhs =
     (case normalize_loop peak_subset_list mhs of
        Inl e \<Rightarrow> Inl e
      | Inr (l1, height_sum) \<Rightarrow>
          (case for_each (\<lambda>df. change_loop (index_labels df) df) l1 of
             Inl e \<Rightarrow> Inl e
           | Inr l2 \<Rightarrow>
               (case for_each (\<lambda>df. peak_loop (index_labels df) df) l2 of
                  Inl e \<Rightarrow> Inl e
                | Inr l3 \<Rightarrow>
                    (case for_each instabilityValue l3 of
                       Inl e \<Rightarrow> Inl e
                     | Inr instability_index \<Rightarrow> Inr (l3, instability_index)))))"

section \<open>What the loops compute\<close>

text \<open>
  The loops above update a table cell by cell. The definitions of this section describe the
  table they leave behind in one step; the lemmas below prove that the loops compute them.
\<close>

definition map_rows :: "(nat \<Rightarrow> PeakRecord \<Rightarrow> PeakRecord) \<Rightarrow> DataFrame \<Rightarrow> DataFrame" where
  "map_rows g df = df\<lparr>rows := map (\<lambda>(l, r). (l, g l r)) (rows df)\<rparr>"

text \<open>The value the second loop writes at label \<open>ii\<close>.\<close>

definition change_value :: "DataFrame \<Rightarrow> nat \<Rightarrow> fl" where
  "change_value df ii =
     (case idxmax df of
        Inl e \<Rightarrow> NaN
      | Inr mi \<Rightarrow>
          (case loc_Height df ii of
             Inl e \<Rightarrow> NaN
           | Inr h \<Rightarrow>
               (case index_of_Height df h of
                  Inl e \<Rightarrow> NaN
                | Inr ci \<Rightarrow> Fin (of_int (int ci - int mi + 1)))))"

text \<open>The same value for a row of height \<open>h\<close>.\<close>

definition change_of :: "DataFrame \<Rightarrow> rat \<Rightarrow> fl" where
  "change_of df h =
     (case idxmax df of
        Inl e \<Rightarrow> NaN
      | Inr mi \<Rightarrow>
          (case index_of_Height df h of
             Inl e \<Rightarrow> NaN
           | Inr ci \<Rightarrow> Fin (of_int (int ci - int mi + 1))))"

text \<open>The value the third loop writes at label \<open>ii\<close>.\<close>

definition peak_value :: "DataFrame \<Rightarrow> nat \<Rightarrow> fl" where
  "peak_value df ii =
     (case at_normalized_Height df ii of
        Inl e \<Rightarrow> NaN
      | Inr nh \<Rightarrow>
          (case at_change_from_main df ii of
             Inl e \<Rightarrow> NaN
           | Inr c \<Rightarrow> fl_round3 (fl_times nh c)))"

definition with_change :: "DataFrame \<Rightarrow> DataFrame" where
  "with_change df =
     (if rows df = [] then df
      else (map_rows (\<lambda>l r. r\<lparr>change_from_main := change_value df l\<rparr>) df)
             \<lparr>columns := add_column ''change_from_main'' (columns df)\<rparr>)"

definition with_peak :: "DataFrame \<Rightarrow> DataFrame" where
  "with_peak df =
     (if rows df = [] then df
      else (map_rows (\<lambda>l r. r\<lparr>normalized_Peak := peak_value df l\<rparr>) df)
             \<lparr>columns := add_column ''normalized_Peak'' (columns df)\<rparr>)"

text \<open>The table after the first three loops, and its rows when the labels are distinct.\<close>

definition annotate :: "DataFrame \<Rightarrow> rat \<Rightarrow> DataFrame" where
  "annotate df mh = with_peak (with_change (set_normalized_Height df (Height_sum df + mh)))"

definition annotated_row :: "DataFrame \<Rightarrow> rat \<Rightarrow> PeakRecord \<Rightarrow> PeakRecord" where
  "annotated_row df mh r =
     (let nh = fl_round3 (fl_div (Height r) (Height_sum df + mh));
          c = change_of df (Height r)
      in r\<lparr>normalized_Height := nh, change_from_main := c,
           normalized_Peak := fl_round3 (fl_times nh c)\<rparr>)"

definition index_value :: "DataFrame \<Rightarrow> rat \<Rightarrow> fl" where
  "index_value df mh =
     fl_round3 (fl_sum (map (\<lambda>(l, r). normalized_Peak r) (rows (annotate df mh))))"

section \<open>The notebook's run\<close>

text \<open>The analysis cell hands the selector's two results to the calculator.\<close>

definition instability_pipeline ::
  "RegionDescriptor list \<Rightarrow> DataFrame list \<Rightarrow> error + (DataFrame list \<times> fl list)" where
  "instability_pipeline sample_df samples =
     (case exp_peak_subset sample_df samples of
        Inl e \<Rightarrow> Inl e
      | Inr (exp_peaks, mh) \<Rightarrow> calc_instability_index exp_peaks mh)"

text \<open>A sample-key row whose path can be read and whose table has the five columns
  \<^verbatim>\<open>extract_files\<close> asks for.\<close>

definition has_peak_table :: "(string \<rightharpoonup> raw_table) \<Rightarrow> RegionDescriptor \<Rightarrow> bool" where
  "has_peak_table fs d =
     (case fs (source_path d) of
        None \<Rightarrow> False
      | Some raw \<Rightarrow>
          list_all (\<lambda>c. map_of raw c \<noteq> None)
            [''Sample File Name'', ''Size'', ''Height'', ''Area'', ''Data Point''])"

section \<open>Example inputs\<close>

text \<open>A sample-key row with modal height 1000 and modal size 180, and peak tables for it.\<close>

definition key_1000_180 :: RegionDescriptor where
  "key_1000_180 =
     \<lparr>source_path = ''Input/PT8_region1.txt'', region_name = Str ''PT8_region1'',
      modal_height = 1000, modal_size = 180\<rparr>"


text \<open>The three peaks of the specification's scenario.\<close>

definition scenario_peaks :: "PeakRecord list" where
  "scenario_peaks =
     [peak_row (Str ''PT8_region1'') 185 50 400 3040,
      peak_row (Str ''PT8_region1'') 190 20 160 3090,
      peak_row (Str ''PT8_region1'') 195 5 40 3140]"

text \<open>Peaks on and next to the three bounds of the selector.\<close>

definition boundary_peaks :: "PeakRecord list" where
  "boundary_peaks =
     [peak_row (Str ''PT8_region1'') 185 1000 8000 3040,
      peak_row (Str ''PT8_region1'') 185 10 80 3041,
      peak_row (Str ''PT8_region1'') 180 500 4000 3000,
      peak_row (Str ''PT8_region1'') 185 1001 8008 3042,
      peak_row (Str ''PT8_region1'') 185 9 72 3043,
      peak_row (Str ''PT8_region1'') 200 500 4000 3190]"

text \<open>A table none of whose peaks is an expansion peak, and one whose heights are all 0.\<close>

definition low_peaks :: "PeakRecord list" where
  "low_peaks =
     [peak_row (Str ''PT8_region1'') 170 50 400 2900,
      peak_row (Str ''PT8_region1'') 185 5 40 3040]"

definition zero_peaks :: "PeakRecord list" where
  "zero_peaks =
     [peak_row (Str ''PT8_region1'') 185 0 0 3040,
      peak_row (Str ''PT8_region1'') 190 0 0 3090]"

text \<open>A parsed instrument export with a column the extractor drops, and a file system
  that holds it.\<close>

definition raw_export :: raw_table where
  "raw_export =
     [(''Dye/Sample Peak'', [Str ''B,1'', Str ''B,2'', Str ''B,3'']),
      (''Sample File Name'', [Str ''run7_A01.fsa'', Str ''run7_A01.fsa'', Str ''run7_A01.fsa'']),
      (''Size'', [Num 185, Num 190, Num 195]),
      (''Height'', [Num 50, Num 20, Num 5]),
      (''Area'', [Num 400, Num 160, Num 40]),
      (''Data Point'', [Num 3040, Num 3090, Num 3140])]"

definition example_fs :: "string \<rightharpoonup> raw_table" where
  "example_fs = map_of [(''Input/PT8_region1.txt'', raw_export)]"

section \<open>The loops compute the closed forms\<close>


lemma normalize_loop_closed:
  "length dfs \<le> length mhs \<Longrightarrow>
   normalize_loop dfs mhs =
     Inr (map (\<lambda>(df, mh). set_normalized_Height df (Height_sum df + mh)) (zip dfs mhs),
          map (\<lambda>(df, mh). Height_sum df + mh) (zip dfs mhs))"
  by (induction dfs mhs rule: normalize_loop.induct) (simp_all add: Let_def)

lemma normalize_loop_short:
  "length mhs < length dfs \<Longrightarrow> normalize_loop dfs mhs = Inl IndexError"
  by (induction dfs mhs rule: normalize_loop.induct) (simp_all add: Let_def)

lemma for_each_closed:
  "(\<And>x. x \<in> set xs \<Longrightarrow> f x = Inr (g x)) \<Longrightarrow> for_each f xs = Inr (map g xs)"
  by (induction xs) simp_all

text \<open>Row updates that leave labels and heights alone.\<close>

lemma idxmax_scan_map:
  "(\<And>l r. Height (g l r) = Height r) \<Longrightarrow>
   idxmax_scan b h (map (\<lambda>(l, r). (l, g l r)) rs) = idxmax_scan b h rs"
  by (induction rs arbitrary: b h) auto

lemma map_of_map_rows:
  "map_of (map (\<lambda>(l, r). (l, g l r)) rs) ii = map_option (g ii) (map_of rs ii)"
  by (induction rs) auto

lemma index_filter_map:
  "(\<And>l r. Height (g l r) = Height r) \<Longrightarrow>
   map fst (filter (\<lambda>(l, r). Height r = h) (map (\<lambda>(l, r). (l, g l r)) rs)) =
   map fst (filter (\<lambda>(l, r). Height r = h) rs)"
proof (induction rs)
  case Nil
  show ?case by simp
next
  case (Cons a rs)
  obtain l r where a: "a = (l, r)" by (cases a)
  have "Height (g l r) = Height r" by (rule Cons.prems)
  with Cons.IH Cons.prems show ?case by (simp add: a)
qed

lemma columns_map_rows [simp]: "columns (map_rows g df) = columns df"
  by (simp add: map_rows_def)

lemma rows_map_rows [simp]: "rows (map_rows g df) = map (\<lambda>(l, r). (l, g l r)) (rows df)"
  by (simp add: map_rows_def)

lemma map_rows_map_rows:
  "map_rows g (map_rows f df) = map_rows (\<lambda>l r. g l (f l r)) df"
  by (simp add: map_rows_def comp_def case_prod_unfold)

lemma map_rows_columns:
  "map_rows g (df\<lparr>columns := cs\<rparr>) = (map_rows g df)\<lparr>columns := cs\<rparr>"
  by (simp add: map_rows_def)

lemma map_rows_cong:
  "(\<And>l r. (l, r) \<in> set (rows df) \<Longrightarrow> f l r = g l r) \<Longrightarrow> map_rows f df = map_rows g df"
proof -
  assume h: "\<And>l r. (l, r) \<in> set (rows df) \<Longrightarrow> f l r = g l r"
  have "map (\<lambda>(l, r). (l, f l r)) (rows df) = map (\<lambda>(l, r). (l, g l r)) (rows df)"
    by (rule map_cong) (auto simp: h)
  then show ?thesis by (simp add: map_rows_def)
qed

lemma columns_same [simp]: "df\<lparr>columns := columns df\<rparr> = df"
  by simp

lemma index_labels_map_rows [simp]: "index_labels (map_rows g df) = index_labels df"
  by (simp add: index_labels_def map_rows_def comp_def case_prod_unfold)

lemma index_labels_columns [simp]: "index_labels (df\<lparr>columns := cs\<rparr>) = index_labels df"
  by (simp add: index_labels_def)

lemma idxmax_map_rows:
  assumes "\<And>l r. Height (g l r) = Height r"
  shows "idxmax (map_rows g df) = idxmax df"
proof (cases "rows df")
  case Nil
  then show ?thesis by (simp add: idxmax_def)
next
  case (Cons a rs)
  obtain l r where a: "a = (l, r)" by (cases a)
  have "Height (g l r) = Height r" by (rule assms)
  then show ?thesis
    using idxmax_scan_map [of g l "Height r" rs] assms
    by (simp add: idxmax_def Cons a)
qed

lemma loc_Height_map_rows:
  assumes "\<And>l r. Height (g l r) = Height r"
  shows "loc_Height (map_rows g df) ii = loc_Height df ii"
  using assms by (simp add: loc_Height_def map_of_map_rows split: option.splits)

lemma index_of_Height_map_rows:
  assumes "\<And>l r. Height (g l r) = Height r"
  shows "index_of_Height (map_rows g df) h = index_of_Height df h"
  using index_filter_map [of g h "rows df"] assms by (simp add: index_of_Height_def)

lemma idxmax_columns [simp]: "idxmax (df\<lparr>columns := cs\<rparr>) = idxmax df"
  by (simp add: idxmax_def)

lemma loc_Height_columns [simp]: "loc_Height (df\<lparr>columns := cs\<rparr>) ii = loc_Height df ii"
  by (simp add: loc_Height_def)

lemma index_of_Height_columns [simp]:
  "index_of_Height (df\<lparr>columns := cs\<rparr>) h = index_of_Height df h"
  by (simp add: index_of_Height_def)

lemma change_value_map_rows:
  assumes "\<And>l r. Height (g l r) = Height r"
  shows "change_value ((map_rows g df)\<lparr>columns := cs\<rparr>) ii = change_value df ii"
proof -
  have "idxmax ((map_rows g df)\<lparr>columns := cs\<rparr>) = idxmax df"
    using assms by (simp add: idxmax_map_rows)
  moreover have "loc_Height ((map_rows g df)\<lparr>columns := cs\<rparr>) ii = loc_Height df ii"
    using assms by (simp add: loc_Height_map_rows)
  moreover have "\<And>h. index_of_Height ((map_rows g df)\<lparr>columns := cs\<rparr>) h =
      index_of_Height df h"
    using assms by (simp add: index_of_Height_map_rows)
  ultimately show ?thesis by (simp add: change_value_def cong: sum.case_cong)
qed

lemma at_set_change_from_main_alt:
  "at_set_change_from_main df ii v =
     (map_rows (\<lambda>l r. if l = ii then r\<lparr>change_from_main := v\<rparr>
                       else if ''change_from_main'' \<in> set (columns df) then r
                       else r\<lparr>change_from_main := NaN\<rparr>) df)
       \<lparr>columns := add_column ''change_from_main'' (columns df)\<rparr>"
  by (simp add: at_set_change_from_main_def map_rows_def)

lemma change_step_defined:
  assumes "ii \<in> set (index_labels df)"
  shows "\<exists>mi h ci. idxmax df = Inr mi \<and> loc_Height df ii = Inr h \<and>
           index_of_Height df h = Inr ci"
proof -
  from assms obtain r0 where "(ii, r0) \<in> set (rows df)"
    by (auto simp: index_labels_def)
  then obtain r where mo: "map_of (rows df) ii = Some r"
    by (metis weak_map_of_SomeI)
  then have mem: "(ii, r) \<in> set (rows df)" by (rule map_of_SomeD)
  then have ne: "rows df \<noteq> []" by auto
  then obtain mi where "idxmax df = Inr mi"
    by (cases "rows df") (auto simp: idxmax_def)
  moreover have "loc_Height df ii = Inr (Height r)" by (simp add: loc_Height_def mo)
  moreover have "filter (\<lambda>(l, r'). Height r' = Height r) (rows df) \<noteq> []"
    using mem by (auto simp: filter_empty_conv)
  then obtain ci where "index_of_Height df (Height r) = Inr ci"
    by (cases "filter (\<lambda>(l, r'). Height r' = Height r) (rows df)")
       (auto simp: index_of_Height_def)
  ultimately show ?thesis by blast
qed

lemma change_loop_step:
  assumes "ii \<in> set (index_labels df)"
  shows "change_loop (ii # iis) df =
           change_loop iis (at_set_change_from_main df ii (change_value df ii))"
proof -
  from change_step_defined [OF assms] obtain mi h ci where
    "idxmax df = Inr mi" "loc_Height df ii = Inr h" "index_of_Height df h = Inr ci"
    by blast
  then show ?thesis by (simp add: change_value_def)
qed

lemma change_loop_present:
  "''change_from_main'' \<in> set (columns df) \<Longrightarrow> set iis \<subseteq> set (index_labels df) \<Longrightarrow>
   change_loop iis df =
     Inr (map_rows (\<lambda>l r. if l \<in> set iis then r\<lparr>change_from_main := change_value df l\<rparr>
                          else r) df)"
proof (induction iis arbitrary: df)
  case Nil
  show ?case by (simp add: map_rows_def)
next
  case (Cons ii iis)
  let ?g = "\<lambda>l r. if l = ii then r\<lparr>change_from_main := change_value df ii\<rparr> else r"
  let ?df1 = "at_set_change_from_main df ii (change_value df ii)"
  have df1: "?df1 = (map_rows ?g df)\<lparr>columns := columns df\<rparr>"
    using Cons.prems(1)
    by (simp add: at_set_change_from_main_alt add_column_def cong: if_cong)
  have hg: "\<And>l r. Height (?g l r) = Height r" by simp
  have cv: "\<And>l. change_value ?df1 l = change_value df l"
    unfolding df1 using hg by (rule change_value_map_rows)
  have "change_loop (ii # iis) df = change_loop iis ?df1"
    using Cons.prems(2) by (intro change_loop_step) simp
  also have "\<dots> = Inr (map_rows (\<lambda>l r. if l \<in> set iis
                 then r\<lparr>change_from_main := change_value ?df1 l\<rparr> else r) ?df1)"
    using Cons.prems by (intro Cons.IH) (simp_all add: df1)
  also have "\<dots> = Inr (map_rows (\<lambda>l r. if l \<in> set (ii # iis)
                 then r\<lparr>change_from_main := change_value df l\<rparr> else r) df)"
  proof -
    have "map_rows (\<lambda>l r. if l \<in> set iis
                 then r\<lparr>change_from_main := change_value df l\<rparr> else r) (map_rows ?g df) =
          map_rows (\<lambda>l r. if l \<in> set (ii # iis)
                 then r\<lparr>change_from_main := change_value df l\<rparr> else r) df"
      unfolding map_rows_map_rows by (rule map_rows_cong) auto
    then show ?thesis unfolding cv by (simp add: df1 map_rows_columns)
  qed
  finally show ?case .
qed

lemma add_column_mem [simp]: "c \<in> set (add_column c cs)"
  by (simp add: add_column_def)

lemma add_column_mem_other [simp]: "c \<in> set cs \<Longrightarrow> c \<in> set (add_column c' cs)"
  by (simp add: add_column_def)

lemma add_column_present: "c \<in> set cs \<Longrightarrow> add_column c cs = cs"
  by (simp add: add_column_def)

lemma change_loop_all:
  "change_loop (index_labels df) df =
     (if rows df = [] then Inr df
      else Inr ((map_rows (\<lambda>l r. r\<lparr>change_from_main := change_value df l\<rparr>) df)
                 \<lparr>columns := add_column ''change_from_main'' (columns df)\<rparr>))"
proof (cases "index_labels df")
  case Nil
  then show ?thesis by (simp add: index_labels_def)
next
  case (Cons ii iis)
  then have ne: "rows df \<noteq> []" by (auto simp: index_labels_def)
  let ?g = "\<lambda>l r. if l = ii then r\<lparr>change_from_main := change_value df ii\<rparr>
                else if ''change_from_main'' \<in> set (columns df) then r
                else r\<lparr>change_from_main := NaN\<rparr>"
  let ?cs = "add_column ''change_from_main'' (columns df)"
  let ?df1 = "at_set_change_from_main df ii (change_value df ii)"
  have df1: "?df1 = (map_rows ?g df)\<lparr>columns := ?cs\<rparr>"
    by (rule at_set_change_from_main_alt)
  have hg: "\<And>l r. Height (?g l r) = Height r" by simp
  have cv: "\<And>l. change_value ?df1 l = change_value df l"
    unfolding df1 using hg by (rule change_value_map_rows)
  have "change_loop (ii # iis) df = change_loop iis ?df1"
    using Cons by (intro change_loop_step) simp
  also have "\<dots> = Inr (map_rows (\<lambda>l r. if l \<in> set iis
                 then r\<lparr>change_from_main := change_value ?df1 l\<rparr> else r) ?df1)"
    using Cons by (intro change_loop_present) (auto simp: df1)
  also have "\<dots> = Inr ((map_rows (\<lambda>l r. r\<lparr>change_from_main := change_value df l\<rparr>) df)
                 \<lparr>columns := ?cs\<rparr>)"
  proof -
    have "map_rows (\<lambda>l r. if l \<in> set iis
                 then r\<lparr>change_from_main := change_value df l\<rparr> else r) (map_rows ?g df) =
          map_rows (\<lambda>l r. r\<lparr>change_from_main := change_value df l\<rparr>) df"
      unfolding map_rows_map_rows
    proof (rule map_rows_cong)
      fix l r assume "(l, r) \<in> set (rows df)"
      then have "l \<in> set (ii # iis)" using Cons by (force simp: index_labels_def)
      then show "(if l \<in> set iis then (?g l r)\<lparr>change_from_main := change_value df l\<rparr>
                  else ?g l r) = r\<lparr>change_from_main := change_value df l\<rparr>"
        by auto
    qed
    then show ?thesis unfolding cv by (simp add: df1 map_rows_columns)
  qed
  finally show ?thesis using ne Cons by simp
qed

subsection \<open>Third loop\<close>

lemma at_set_normalized_Peak_alt:
  "at_set_normalized_Peak df ii v =
     (map_rows (\<lambda>l r. if l = ii then r\<lparr>normalized_Peak := v\<rparr>
                       else if ''normalized_Peak'' \<in> set (columns df) then r
                       else r\<lparr>normalized_Peak := NaN\<rparr>) df)
       \<lparr>columns := add_column ''normalized_Peak'' (columns df)\<rparr>"
  by (simp add: at_set_normalized_Peak_def map_rows_def)

lemma peak_value_map_rows:
  assumes "\<And>l r. normalized_Height (g l r) = normalized_Height r"
    and "\<And>l r. change_from_main (g l r) = change_from_main r"
    and "''normalized_Height'' \<in> set cs \<longleftrightarrow> ''normalized_Height'' \<in> set (columns df)"
    and "''change_from_main'' \<in> set cs \<longleftrightarrow> ''change_from_main'' \<in> set (columns df)"
  shows "peak_value ((map_rows g df)\<lparr>columns := cs\<rparr>) ii = peak_value df ii"
proof -
  have "at_normalized_Height ((map_rows g df)\<lparr>columns := cs\<rparr>) ii = at_normalized_Height df ii"
    using assms(1,3)
    by (simp add: at_normalized_Height_def map_of_map_rows split: option.splits)
  moreover have
    "at_change_from_main ((map_rows g df)\<lparr>columns := cs\<rparr>) ii = at_change_from_main df ii"
    using assms(2,4)
    by (simp add: at_change_from_main_def map_of_map_rows split: option.splits)
  ultimately show ?thesis by (simp add: peak_value_def cong: sum.case_cong)
qed

lemma peak_loop_step:
  assumes "ii \<in> set (index_labels df)"
    and "''normalized_Height'' \<in> set (columns df)"
    and "''change_from_main'' \<in> set (columns df)"
  shows "peak_loop (ii # iis) df =
           peak_loop iis (at_set_normalized_Peak df ii (peak_value df ii))"
proof -
  from assms(1) obtain r0 where "(ii, r0) \<in> set (rows df)"
    by (auto simp: index_labels_def)
  then obtain r where mo: "map_of (rows df) ii = Some r"
    by (metis weak_map_of_SomeI)
  have "at_normalized_Height df ii = Inr (normalized_Height r)"
    using assms(2) by (simp add: at_normalized_Height_def mo)
  moreover have "at_change_from_main df ii = Inr (change_from_main r)"
    using assms(3) by (simp add: at_change_from_main_def mo)
  ultimately show ?thesis by (simp add: peak_value_def)
qed

lemma peak_loop_present:
  "''normalized_Peak'' \<in> set (columns df) \<Longrightarrow> ''normalized_Height'' \<in> set (columns df) \<Longrightarrow>
   ''change_from_main'' \<in> set (columns df) \<Longrightarrow> set iis \<subseteq> set (index_labels df) \<Longrightarrow>
   peak_loop iis df =
     Inr (map_rows (\<lambda>l r. if l \<in> set iis then r\<lparr>normalized_Peak := peak_value df l\<rparr>
                          else r) df)"
proof (induction iis arbitrary: df)
  case Nil
  show ?case by (simp add: map_rows_def)
next
  case (Cons ii iis)
  let ?g = "\<lambda>l r. if l = ii then r\<lparr>normalized_Peak := peak_value df ii\<rparr> else r"
  let ?df1 = "at_set_normalized_Peak df ii (peak_value df ii)"
  have df1: "?df1 = (map_rows ?g df)\<lparr>columns := columns df\<rparr>"
    using Cons.prems(1)
    by (simp add: at_set_normalized_Peak_alt add_column_def cong: if_cong)
  have pv: "\<And>l. peak_value ?df1 l = peak_value df l"
    unfolding df1 by (rule peak_value_map_rows) simp_all
  have "peak_loop (ii # iis) df = peak_loop iis ?df1"
    using Cons.prems by (intro peak_loop_step) simp_all
  also have "\<dots> = Inr (map_rows (\<lambda>l r. if l \<in> set iis
                 then r\<lparr>normalized_Peak := peak_value ?df1 l\<rparr> else r) ?df1)"
    using Cons.prems by (intro Cons.IH) (simp_all add: df1)
  also have "\<dots> = Inr (map_rows (\<lambda>l r. if l \<in> set (ii # iis)
                 then r\<lparr>normalized_Peak := peak_value df l\<rparr> else r) df)"
  proof -
    have "map_rows (\<lambda>l r. if l \<in> set iis
                 then r\<lparr>normalized_Peak := peak_value df l\<rparr> else r) (map_rows ?g df) =
          map_rows (\<lambda>l r. if l \<in> set (ii # iis)
                 then r\<lparr>normalized_Peak := peak_value df l\<rparr> else r) df"
      unfolding map_rows_map_rows by (rule map_rows_cong) auto
    then show ?thesis unfolding pv by (simp add: df1 map_rows_columns)
  qed
  finally show ?case .
qed

lemma peak_loop_all:
  assumes "''normalized_Height'' \<in> set (columns df)"
    and "''change_from_main'' \<in> set (columns df)"
  shows "peak_loop (index_labels df) df =
     (if rows df = [] then Inr df
      else Inr ((map_rows (\<lambda>l r. r\<lparr>normalized_Peak := peak_value df l\<rparr>) df)
                 \<lparr>columns := add_column ''normalized_Peak'' (columns df)\<rparr>))"
proof (cases "index_labels df")
  case Nil
  then show ?thesis by (simp add: index_labels_def)
next
  case (Cons ii iis)
  then have ne: "rows df \<noteq> []" by (auto simp: index_labels_def)
  let ?g = "\<lambda>l r. if l = ii then r\<lparr>normalized_Peak := peak_value df ii\<rparr>
                else if ''normalized_Peak'' \<in> set (columns df) then r
                else r\<lparr>normalized_Peak := NaN\<rparr>"
  let ?cs = "add_column ''normalized_Peak'' (columns df)"
  let ?df1 = "at_set_normalized_Peak df ii (peak_value df ii)"
  have df1: "?df1 = (map_rows ?g df)\<lparr>columns := ?cs\<rparr>"
    by (rule at_set_normalized_Peak_alt)
  have pv: "\<And>l. peak_value ?df1 l = peak_value df l"
    unfolding df1 using assms by (intro peak_value_map_rows) (simp_all add: add_column_def)
  have "peak_loop (ii # iis) df = peak_loop iis ?df1"
    using Cons assms by (intro peak_loop_step) simp_all
  also have "\<dots> = Inr (map_rows (\<lambda>l r. if l \<in> set iis
                 then r\<lparr>normalized_Peak := peak_value ?df1 l\<rparr> else r) ?df1)"
    using Cons assms by (intro peak_loop_present) (auto simp: df1)
  also have "\<dots> = Inr ((map_rows (\<lambda>l r. r\<lparr>normalized_Peak := peak_value df l\<rparr>) df)
                 \<lparr>columns := ?cs\<rparr>)"
  proof -
    have "map_rows (\<lambda>l r. if l \<in> set iis
                 then r\<lparr>normalized_Peak := peak_value df l\<rparr> else r) (map_rows ?g df) =
          map_rows (\<lambda>l r. r\<lparr>normalized_Peak := peak_value df l\<rparr>) df"
      unfolding map_rows_map_rows
    proof (rule map_rows_cong)
      fix l r assume "(l, r) \<in> set (rows df)"
      then have "l \<in> set (ii # iis)" using Cons by (force simp: index_labels_def)
      then show "(if l \<in> set iis then (?g l r)\<lparr>normalized_Peak := peak_value df l\<rparr>
                  else ?g l r) = r\<lparr>normalized_Peak := peak_value df l\<rparr>"
        by auto
    qed
    then show ?thesis unfolding pv by (simp add: df1 map_rows_columns)
  qed
  finally show ?thesis using ne Cons by simp
qed

lemma peak_loop_all':
  assumes "''normalized_Height'' \<in> set (columns df)"
    and "rows df \<noteq> [] \<Longrightarrow> ''change_from_main'' \<in> set (columns df)"
  shows "peak_loop (index_labels df) df =
     (if rows df = [] then Inr df
      else Inr ((map_rows (\<lambda>l r. r\<lparr>normalized_Peak := peak_value df l\<rparr>) df)
                 \<lparr>columns := add_column ''normalized_Peak'' (columns df)\<rparr>))"
proof (cases "rows df = []")
  case True
  then show ?thesis by (simp add: index_labels_def)
next
  case False
  then show ?thesis using assms by (simp add: peak_loop_all)
qed

lemma set_normalized_Height_alt:
  "set_normalized_Height df hs =
     (map_rows (\<lambda>l r. r\<lparr>normalized_Height := fl_round3 (fl_div (Height r) hs)\<rparr>) df)
       \<lparr>columns := add_column ''normalized_Height'' (columns df)\<rparr>"
  by (simp add: set_normalized_Height_def map_rows_def)

lemma rows_empty_map_rows [simp]: "rows (map_rows g df) = [] \<longleftrightarrow> rows df = []"
  by (simp add: map_rows_def)

lemma calc_closed:
  "calc_instability_index dfs mhs =
     (if length mhs < length dfs then Inl IndexError
      else (case for_each instabilityValue (map (\<lambda>(df, mh). annotate df mh) (zip dfs mhs)) of
              Inl e \<Rightarrow> Inl e
            | Inr idx \<Rightarrow> Inr (map (\<lambda>(df, mh). annotate df mh) (zip dfs mhs), idx)))"
proof (cases "length mhs < length dfs")
  case True
  then show ?thesis by (simp add: calc_instability_index_def normalize_loop_short)
next
  case False
  let ?l1 = "map (\<lambda>(df, mh). set_normalized_Height df (Height_sum df + mh)) (zip dfs mhs)"
  have n: "normalize_loop dfs mhs =
      Inr (?l1, map (\<lambda>(df, mh). Height_sum df + mh) (zip dfs mhs))"
    using False by (intro normalize_loop_closed) simp
  have c: "for_each (\<lambda>df. change_loop (index_labels df) df) ?l1 = Inr (map with_change ?l1)"
    by (rule for_each_closed) (simp add: change_loop_all with_change_def)
  have p: "for_each (\<lambda>df. peak_loop (index_labels df) df) (map with_change ?l1) =
      Inr (map with_peak (map with_change ?l1))"
  proof (rule for_each_closed)
    fix x assume "x \<in> set (map with_change ?l1)"
    then obtain df mh where x: "x = with_change (set_normalized_Height df (Height_sum df + mh))"
      by auto
    have "''normalized_Height'' \<in> set (columns x)"
      by (simp add: x with_change_def set_normalized_Height_alt)
    moreover have "rows x \<noteq> [] \<Longrightarrow> ''change_from_main'' \<in> set (columns x)"
      by (simp add: x with_change_def set_normalized_Height_alt split: if_splits)
    ultimately have "peak_loop (index_labels x) x =
        (if rows x = [] then Inr x
         else Inr ((map_rows (\<lambda>l r. r\<lparr>normalized_Peak := peak_value x l\<rparr>) x)
                 \<lparr>columns := add_column ''normalized_Peak'' (columns x)\<rparr>))"
      by (rule peak_loop_all')
    then show "peak_loop (index_labels x) x = Inr (with_peak x)"
      by (simp add: with_peak_def)
  qed
  have a: "map with_peak (map with_change ?l1) = map (\<lambda>(df, mh). annotate df mh) (zip dfs mhs)"
    by (simp add: annotate_def comp_def case_prod_unfold)
  show ?thesis
    by (simp only: calc_instability_index_def n c p a sum.case prod.case False if_False)
qed

lemma change_value_distinct:
  assumes "distinct (index_labels df)" and "(l, r) \<in> set (rows df)"
  shows "change_value df l = change_of df (Height r)"
proof -
  have "map_of (rows df) l = Some r"
    using assms by (intro map_of_is_SomeI) (simp_all add: index_labels_def)
  then have "loc_Height df l = Inr (Height r)" by (simp add: loc_Height_def)
  then show ?thesis by (simp add: change_value_def change_of_def split: sum.splits)
qed

lemma change_of_map_rows:
  assumes "\<And>l r. Height (g l r) = Height r"
  shows "change_of ((map_rows g df)\<lparr>columns := cs\<rparr>) h = change_of df h"
proof -
  have "idxmax ((map_rows g df)\<lparr>columns := cs\<rparr>) = idxmax df"
    using assms by (simp add: idxmax_map_rows)
  moreover have "\<And>h. index_of_Height ((map_rows g df)\<lparr>columns := cs\<rparr>) h =
      index_of_Height df h"
    using assms by (simp add: index_of_Height_map_rows)
  ultimately show ?thesis by (simp add: change_of_def cong: sum.case_cong)
qed

lemma distinct_labels_map_rows:
  "distinct (index_labels ((map_rows g df)\<lparr>columns := cs\<rparr>)) = distinct (index_labels df)"
  by simp

lemma peak_value_distinct:
  assumes "distinct (index_labels df)" and "(l, r) \<in> set (rows df)"
    and "''normalized_Height'' \<in> set (columns df)"
    and "''change_from_main'' \<in> set (columns df)"
  shows "peak_value df l = fl_round3 (fl_times (normalized_Height r) (change_from_main r))"
proof -
  have "map_of (rows df) l = Some r"
    using assms(1,2) by (intro map_of_is_SomeI) (simp_all add: index_labels_def)
  then show ?thesis
    using assms(3,4)
    by (simp add: peak_value_def at_normalized_Height_def at_change_from_main_def)
qed

lemma annotate_rows:
  assumes "distinct (index_labels df)"
  shows "rows (annotate df mh) = map (\<lambda>(l, r). (l, annotated_row df mh r)) (rows df)"
proof (cases "rows df = []")
  case True
  then show ?thesis
    by (simp add: annotate_def with_peak_def with_change_def set_normalized_Height_alt)
next
  case False
  let ?hs = "Height_sum df + mh"
  let ?g1 = "\<lambda>(l::nat) r. r\<lparr>normalized_Height := fl_round3 (fl_div (Height r) ?hs)\<rparr>"
  let ?df1 = "set_normalized_Height df ?hs"
  let ?df2 = "with_change ?df1"
  have df1: "?df1 = (map_rows ?g1 df)\<lparr>columns := add_column ''normalized_Height'' (columns df)\<rparr>"
    by (rule set_normalized_Height_alt)
  have d1: "distinct (index_labels ?df1)" using assms by (simp add: df1)
  have co: "\<And>h. change_of ?df1 h = change_of df h"
    unfolding df1 by (rule change_of_map_rows) simp
  have ne1: "rows ?df1 \<noteq> []" using False by (simp add: df1)
  have r1: "rows ?df1 = map (\<lambda>(l, r). (l, ?g1 l r)) (rows df)"
    by (simp add: df1)
  have s1: "map_rows (\<lambda>l r. r\<lparr>change_from_main := change_value ?df1 l\<rparr>) ?df1 =
        map_rows (\<lambda>l r. r\<lparr>change_from_main := change_of df (Height r)\<rparr>) ?df1"
  proof (rule map_rows_cong)
    fix l r assume m: "(l, r) \<in> set (rows ?df1)"
    show "r\<lparr>change_from_main := change_value ?df1 l\<rparr> =
          r\<lparr>change_from_main := change_of df (Height r)\<rparr>"
      using change_value_distinct [OF d1 m] co by simp
  qed
  have e2: "?df2 = (map_rows (\<lambda>l r. r\<lparr>change_from_main := change_of df (Height r)\<rparr>) ?df1)
               \<lparr>columns := add_column ''change_from_main'' (columns ?df1)\<rparr>"
    using ne1 by (simp add: with_change_def s1)
  have r2: "rows ?df2 =
      map (\<lambda>(l, r). (l, r\<lparr>normalized_Height := fl_round3 (fl_div (Height r) ?hs),
                            change_from_main := change_of df (Height r)\<rparr>)) (rows df)"
    unfolding e2 by (simp add: r1 comp_def case_prod_unfold)
  have c2: "''normalized_Height'' \<in> set (columns ?df2)" "''change_from_main'' \<in> set (columns ?df2)"
    unfolding e2 by (simp_all add: df1)
  have d2: "distinct (index_labels ?df2)"
    unfolding e2 using d1 by simp
  have ne2: "rows ?df2 \<noteq> []" using False by (simp add: r2)
  have "map_rows (\<lambda>l r. r\<lparr>normalized_Peak := peak_value ?df2 l\<rparr>) ?df2 =
        map_rows (\<lambda>l r. r\<lparr>normalized_Peak :=
           fl_round3 (fl_times (normalized_Height r) (change_from_main r))\<rparr>) ?df2"
  proof (rule map_rows_cong)
    fix l r assume m: "(l, r) \<in> set (rows ?df2)"
    show "r\<lparr>normalized_Peak := peak_value ?df2 l\<rparr> =
          r\<lparr>normalized_Peak := fl_round3 (fl_times (normalized_Height r) (change_from_main r))\<rparr>"
      using peak_value_distinct [OF d2 m c2] by simp
  qed
  then have "rows (annotate df mh) =
      rows (map_rows (\<lambda>l r. r\<lparr>normalized_Peak :=
           fl_round3 (fl_times (normalized_Height r) (change_from_main r))\<rparr>) ?df2)"
    using ne2 by (simp add: annotate_def with_peak_def)
  then show ?thesis
    by (simp add: r2 comp_def case_prod_unfold annotated_row_def Let_def)
qed

lemma annotate_columns:
  "columns (annotate df mh) =
     (if rows df = [] then add_column ''normalized_Height'' (columns df)
      else add_column ''normalized_Peak'' (add_column ''change_from_main''
             (add_column ''normalized_Height'' (columns df))))"
  by (simp add: annotate_def with_peak_def with_change_def set_normalized_Height_alt)

lemma rows_annotate_empty [simp]: "rows (annotate df mh) = [] \<longleftrightarrow> rows df = []"
  by (simp add: annotate_def with_peak_def with_change_def set_normalized_Height_alt)

lemma instabilityValue_annotate:
  assumes "rows df \<noteq> []"
  shows "instabilityValue (annotate df mh) =
     Inr (fl_round3 (fl_sum (map (\<lambda>(l, r). normalized_Peak r) (rows (annotate df mh)))))"
  using assms by (simp add: instabilityValue_def normalized_Peak_sum_def annotate_columns)

lemma instabilityValue_annotate_empty:
  assumes "rows df = []" and "''normalized_Peak'' \<notin> set (columns df)"
  shows "instabilityValue (annotate df mh) = Inl AttributeError"
  using assms
  by (simp add: instabilityValue_def normalized_Peak_sum_def annotate_columns add_column_def)

lemma calc_success:
  assumes "\<forall>df \<in> set dfs. rows df \<noteq> []" and "length dfs \<le> length mhs"
  shows "calc_instability_index dfs mhs =
     Inr (map (\<lambda>(df, mh). annotate df mh) (zip dfs mhs),
          map (\<lambda>(df, mh). index_value df mh) (zip dfs mhs))"
proof -
  have "for_each instabilityValue (map (\<lambda>(df, mh). annotate df mh) (zip dfs mhs)) =
      Inr (map (\<lambda>df. fl_round3 (fl_sum (map (\<lambda>(l, r). normalized_Peak r) (rows df))))
             (map (\<lambda>(df, mh). annotate df mh) (zip dfs mhs)))"
  proof (rule for_each_closed)
    fix x assume "x \<in> set (map (\<lambda>(df, mh). annotate df mh) (zip dfs mhs))"
    then obtain df mh where x: "x = annotate df mh" and "(df, mh) \<in> set (zip dfs mhs)"
      by auto
    then have "df \<in> set dfs" by (auto dest: set_zip_leftD)
    with assms(1) have "rows df \<noteq> []" by blast
    then show "instabilityValue x =
        Inr (fl_round3 (fl_sum (map (\<lambda>(l, r). normalized_Peak r) (rows x))))"
      unfolding x by (rule instabilityValue_annotate)
  qed
  then show ?thesis
    using assms(2)
    by (simp add: calc_closed index_value_def comp_def case_prod_unfold)
qed

lemma first_filter_find:
  fixes rs :: "(nat \<times> PeakRecord) list"
  shows "(case map fst (filter P rs) of [] \<Rightarrow> Inl IndexError | l # _ \<Rightarrow> Inr l) = Inr ci \<longleftrightarrow>
     (\<exists>rc. find P rs = Some (ci, rc))"
  by (induction rs) auto

lemma index_of_Height_find:
  "index_of_Height df h = Inr ci \<longleftrightarrow>
     (\<exists>rc. find (\<lambda>(l, r). Height r = h) (rows df) = Some (ci, rc))"
  unfolding index_of_Height_def by (rule first_filter_find)

lemma idxmax_scan_find:
  "Height rb = h \<Longrightarrow> \<forall>(l, r) \<in> set ((b, rb) # rs). Height r \<le> M \<Longrightarrow>
   \<exists>(l, r) \<in> set ((b, rb) # rs). Height r = M \<Longrightarrow>
   \<exists>rm. find (\<lambda>(l, r). Height r = M) ((b, rb) # rs) = Some (idxmax_scan b h rs, rm)"
proof (induction rs arbitrary: b rb h)
  case Nil
  then show ?case by simp
next
  case (Cons a rs)
  obtain l r where a: "a = (l, r)" by (cases a)
  have rM: "Height r \<le> M" and hM: "h \<le> M"
    using Cons.prems(1,2) by (auto simp: a)
  show ?case
  proof (cases "h < Height r")
    case True
    then have ne: "h \<noteq> M" using rM by simp
    have "\<exists>rm. find (\<lambda>(l, r). Height r = M) ((l, r) # rs) =
            Some (idxmax_scan l (Height r) rs, rm)"
    proof (rule Cons.IH)
      show "Height r = Height r" by simp
      show "\<forall>(l, r) \<in> set ((l, r) # rs). Height r \<le> M"
        using Cons.prems(2) by (auto simp: a)
      show "\<exists>(l, r) \<in> set ((l, r) # rs). Height r = M"
        using Cons.prems(1,3) ne by (auto simp: a)
    qed
    then show ?thesis using True ne Cons.prems(1) by (simp add: a)
  next
    case False
    have ih: "\<exists>rm. find (\<lambda>(l, r). Height r = M) ((b, rb) # rs) = Some (idxmax_scan b h rs, rm)"
    proof (rule Cons.IH)
      show "Height rb = h" by (rule Cons.prems(1))
      show "\<forall>(l, r) \<in> set ((b, rb) # rs). Height r \<le> M"
        using Cons.prems(2) by (auto simp: a)
      show "\<exists>(l, r) \<in> set ((b, rb) # rs). Height r = M"
        using Cons.prems(1,3) False hM by (auto simp: a)
    qed
    show ?thesis
    proof (cases "h = M")
      case True
      then show ?thesis using ih False Cons.prems(1) by (simp add: a)
    next
      case ne: False
      then have "Height r \<noteq> M" using False hM by simp
      then show ?thesis using ih ne False Cons.prems(1) by (simp add: a)
    qed
  qed
qed

lemma idxmax_find:
  assumes "rows df \<noteq> []"
  shows "\<exists>mi rm. idxmax df = Inr mi \<and>
     find (\<lambda>(l, r). Height r = Max (set (map (\<lambda>(l, r). Height r) (rows df)))) (rows df) =
       Some (mi, rm)"
proof -
  from assms obtain l r rs where rs: "rows df = (l, r) # rs"
    by (cases "rows df") auto
  let ?M = "Max (set (map (\<lambda>(l, r). Height r) (rows df)))"
  have ne: "set (map (\<lambda>(l, r). Height r) (rows df)) \<noteq> {}" using assms by simp
  have le: "\<forall>(l, r) \<in> set (rows df). Height r \<le> ?M"
    by (auto intro!: Max_ge)
  have "?M \<in> set (map (\<lambda>(l, r). Height r) (rows df))"
    using ne by (intro Max_in) simp_all
  then obtain x where x: "x \<in> set (rows df)" "(\<lambda>(l, r). Height r) x = ?M"
    unfolding set_map by (rule imageE) simp
  obtain lx rx where "x = (lx, rx)" by (cases x)
  with x have "\<exists>(l, r) \<in> set (rows df). Height r = ?M" by force
  with le have "\<exists>rm. find (\<lambda>(l, r). Height r = ?M) ((l, r) # rs) =
      Some (idxmax_scan l (Height r) rs, rm)"
    unfolding rs by (intro idxmax_scan_find) simp_all
  moreover have "idxmax df = Inr (idxmax_scan l (Height r) rs)"
    by (simp add: idxmax_def rs)
  ultimately show ?thesis unfolding rs by blast
qed

section \<open>The calculator, row by row\<close>

lemma calc_row:
  assumes ne: "\<forall>df \<in> set dfs. rows df \<noteq> [] \<and> distinct (index_labels df)"
    and len: "length dfs \<le> length mhs" and i: "i < length dfs"
    and j: "j < length (rows (dfs ! i))"
  shows "\<exists>out idx. calc_instability_index dfs mhs = Inr (out, idx) \<and>
           length out = length dfs \<and> length idx = length dfs \<and>
           length (rows (out ! i)) = length (rows (dfs ! i)) \<and>
           rows (out ! i) ! j =
             (fst (rows (dfs ! i) ! j), annotated_row (dfs ! i) (mhs ! i) (snd (rows (dfs ! i) ! j))) \<and>
           idx ! i = fl_round3 (fl_sum (map (\<lambda>(l, r). normalized_Peak r) (rows (out ! i))))"
proof -
  let ?out = "map (\<lambda>(df, mh). annotate df mh) (zip dfs mhs)"
  let ?idx = "map (\<lambda>(df, mh). index_value df mh) (zip dfs mhs)"
  have c: "calc_instability_index dfs mhs = Inr (?out, ?idx)"
    using ne len by (intro calc_success) auto
  have iz: "i < length (zip dfs mhs)" using i len by simp
  have oi: "?out ! i = annotate (dfs ! i) (mhs ! i)"
    using iz i len by (simp add: nth_map [OF iz])
  have ii: "?idx ! i = index_value (dfs ! i) (mhs ! i)"
    using iz i len by (simp add: nth_map [OF iz])
  have d: "distinct (index_labels (dfs ! i))" using ne i by simp
  have r: "rows (?out ! i) =
      map (\<lambda>(l, r). (l, annotated_row (dfs ! i) (mhs ! i) r)) (rows (dfs ! i))"
    unfolding oi using d by (rule annotate_rows)
  have rj: "rows (?out ! i) ! j =
      (fst (rows (dfs ! i) ! j), annotated_row (dfs ! i) (mhs ! i) (snd (rows (dfs ! i) ! j)))"
    unfolding r using j by (simp add: case_prod_unfold)
  have "length ?out = length dfs" "length ?idx = length dfs" using len by simp_all
  moreover have "length (rows (?out ! i)) = length (rows (dfs ! i))" unfolding r by simp
  moreover have "?idx ! i = fl_round3 (fl_sum (map (\<lambda>(l, r). normalized_Peak r) (rows (?out ! i))))"
    unfolding ii oi by (simp add: index_value_def)
  ultimately show ?thesis using c rj by blast
qed

lemma change_of_find:
  assumes "(l, r) \<in> set (rows df)"
  shows "\<exists>mi rm ci rc.
     find (\<lambda>(l, r). Height r = Max (set (map (\<lambda>(l, r). Height r) (rows df)))) (rows df)
       = Some (mi, rm) \<and>
     find (\<lambda>(l, r'). Height r' = Height r) (rows df) = Some (ci, rc) \<and>
     change_of df (Height r) = Fin (of_int (int ci - int mi + 1))"
proof -
  from assms have ne: "rows df \<noteq> []" by auto
  from idxmax_find [OF ne] obtain mi rm where
    mi: "idxmax df = Inr mi"
    "find (\<lambda>(l, r). Height r = Max (set (map (\<lambda>(l, r). Height r) (rows df)))) (rows df)
       = Some (mi, rm)"
    by blast
  have "\<exists>x. find (\<lambda>(l, r'). Height r' = Height r) (rows df) = Some x"
    using assms by (cases "find (\<lambda>(l, r'). Height r' = Height r) (rows df)")
      (auto simp: find_None_iff)
  then obtain ci rc where f: "find (\<lambda>(l, r'). Height r' = Height r) (rows df) = Some (ci, rc)"
    by (metis surj_pair)
  then have "index_of_Height df (Height r) = Inr ci"
    using index_of_Height_find [of df "Height r" ci] by blast
  then have "change_of df (Height r) = Fin (of_int (int ci - int mi + 1))"
    by (simp add: change_of_def mi(1))
  with mi(2) f show ?thesis by blast
qed

lemma round_half_even_of_int [simp]: "round_half_even (of_int k) = k"
  by (simp add: round_half_even_def)

lemma round3_round3 [simp]: "round3 (round3 x) = round3 x"
  by (simp add: round3_def)



lemma round3_zero [simp]: "round3 0 = 0"
  by (simp add: round3_def round_half_even_def)

lemma fl_times_one [simp]: "fl_times a (Fin 1) = a"
  by (cases a) simp_all

lemma fl_round3_idem [simp]: "fl_round3 (fl_round3 a) = fl_round3 a"
  by (cases a) simp_all


lemma for_each_error:
  "for_each f xs = Inl e \<Longrightarrow> \<exists>x \<in> set xs. f x = Inl e"
  by (induction xs arbitrary: e) (auto split: sum.splits)

lemma instabilityValue_error: "instabilityValue df = Inl e \<Longrightarrow> e = AttributeError"
  by (auto simp: instabilityValue_def normalized_Peak_sum_def split: if_splits)

lemma calc_error:
  assumes "calc_instability_index dfs mhs = Inl e"
  shows "e = IndexError \<or> e = AttributeError"
proof (cases "length mhs < length dfs")
  case True
  with assms show ?thesis by (simp add: calc_closed)
next
  case False
  with assms have "for_each instabilityValue (map (\<lambda>(df, mh). annotate df mh) (zip dfs mhs)) = Inl e"
    by (simp add: calc_closed split: sum.splits)
  from for_each_error [OF this] obtain x where "instabilityValue x = Inl e" by blast
  then show ?thesis by (simp add: instabilityValue_error)
qed

lemma fl_sum_all_NaN: "\<forall>c \<in> set cs. c = NaN \<Longrightarrow> fl_sum cs = Fin 0"
proof -
  assume "\<forall>c \<in> set cs. c = NaN"
  then have "filter (\<lambda>c. c \<noteq> NaN) cs = []" by (simp add: filter_empty_conv)
  then show ?thesis by (simp add: fl_sum_def)
qed

lemma sum_list_all_zero:
  fixes f :: "'a \<Rightarrow> rat"
  shows "\<forall>x \<in> set xs. f x = 0 \<Longrightarrow> sum_list (map f xs) = 0"
  by (induction xs) auto

lemma Height_sum_zero:
  "\<forall>(l, r) \<in> set (rows df). Height r = 0 \<Longrightarrow> Height_sum df = 0"
  unfolding Height_sum_def by (rule sum_list_all_zero) auto

lemma for_each_fails:
  "x \<in> set xs \<Longrightarrow> f x = Inl e \<Longrightarrow> (\<And>y e'. f y = Inl e' \<Longrightarrow> e' = e) \<Longrightarrow>
   for_each f xs = Inl e"
proof (induction xs)
  case Nil
  from Nil.prems(1) show ?case by simp
next
  case (Cons a xs)
  show ?case
  proof (cases "f a")
    case (Inl e')
    then have "e' = e" by (rule Cons.prems(3))
    with Inl show ?thesis by simp
  next
    case (Inr y)
    with Cons.prems(1,2) have "x \<in> set xs" by auto
    then have "for_each f xs = Inl e" using Cons.prems(2,3) by (rule Cons.IH)
    then show ?thesis by (simp add: Inr)
  qed
qed

lemma calc_fails_on_empty_subset:
  assumes "length dfs \<le> length mhs" and "df \<in> set dfs" and "rows df = []"
    and "''normalized_Peak'' \<notin> set (columns df)"
  shows "calc_instability_index dfs mhs = Inl AttributeError"
proof -
  from assms(2) obtain i where i: "i < length dfs" "dfs ! i = df"
    by (auto simp: in_set_conv_nth)
  then have "(df, mhs ! i) \<in> set (zip dfs mhs)"
    using assms(1) by (auto simp: set_zip)
  then have "annotate df (mhs ! i) \<in> set (map (\<lambda>(df, mh). annotate df mh) (zip dfs mhs))"
    by force
  moreover have "instabilityValue (annotate df (mhs ! i)) = Inl AttributeError"
    using assms(3,4) by (rule instabilityValue_annotate_empty)
  ultimately have "for_each instabilityValue (map (\<lambda>(df, mh). annotate df mh) (zip dfs mhs)) =
      Inl AttributeError"
    by (rule for_each_fails) (rule instabilityValue_error)
  then show ?thesis using assms(1) by (simp add: calc_closed)
qed

section \<open>Peak extractor\<close>

lemma extract_one_closed:
  assumes "fs (source_path d) = Some raw"
    and "map_of raw ''Sample File Name'' = Some sn" and "map_of raw ''Size'' = Some sz"
    and "map_of raw ''Height'' = Some h" and "map_of raw ''Area'' = Some a"
    and "map_of raw ''Data Point'' = Some dp"
  shows "extract_one fs d =
     Inr [(''Sample_Name'', replicate (length sn) (region_name d)), (''Size'', sz),
          (''Height'', h), (''Area'', a), (''Data_Point'', dp)]"
proof -
  have s: "select_columns [''Sample File Name'', ''Size'', ''Height'', ''Area'', ''Data Point''] raw =
      Inr [(''Sample File Name'', sn), (''Size'', sz), (''Height'', h), (''Area'', a),
           (''Data Point'', dp)]"
    using assms(2-6) by simp
  have r: "rename_columns [''Sample_Name'', ''Size'', ''Height'', ''Area'', ''Data_Point'']
        [(''Sample File Name'', sn), (''Size'', sz), (''Height'', h), (''Area'', a),
         (''Data Point'', dp)] =
      Inr [(''Sample_Name'', sn), (''Size'', sz), (''Height'', h), (''Area'', a),
           (''Data_Point'', dp)]"
    by (simp add: rename_columns_def)
  have a: "assign_scalar ''Sample_Name'' (region_name d)
        [(''Sample_Name'', sn), (''Size'', sz), (''Height'', h), (''Area'', a),
         (''Data_Point'', dp)] =
      [(''Sample_Name'', replicate (length sn) (region_name d)), (''Size'', sz),
       (''Height'', h), (''Area'', a), (''Data_Point'', dp)]"
    by (simp add: assign_scalar_def nrows_def)
  show ?thesis
    by (simp only: extract_one_def assms(1) option.case s r a sum.case)
qed

lemma extract_files_closed:
  "(\<And>d. d \<in> set sample_df \<Longrightarrow> \<exists>x. extract_one fs d = Inr x) \<Longrightarrow>
   extract_files fs sample_df = Inr (map (\<lambda>d. projr (extract_one fs d)) sample_df)"
proof (induction sample_df)
  case Nil
  show ?case by simp
next
  case (Cons d ds)
  from Cons.prems obtain x where x: "extract_one fs d = Inr x" by auto
  have "extract_files fs ds = Inr (map (\<lambda>d. projr (extract_one fs d)) ds)"
    using Cons.prems by (intro Cons.IH) simp
  then show ?case by (simp add: x)
qed

lemma has_peak_table_columns:
  assumes "has_peak_table fs d"
  shows "\<exists>raw sn sz h a dp. fs (source_path d) = Some raw \<and>
     map_of raw ''Sample File Name'' = Some sn \<and> map_of raw ''Size'' = Some sz \<and>
     map_of raw ''Height'' = Some h \<and> map_of raw ''Area'' = Some a \<and>
     map_of raw ''Data Point'' = Some dp"
  using assms by (auto simp: has_peak_table_def split: option.splits)

text \<open>
  Claim C9. When every row of the sample key names a readable table with the five
  columns, \<^verbatim>\<open>extract_files\<close> returns one table for each row of the key, in the order of
  the key. The table at position \<open>i\<close> has exactly the five columns \<open>Sample_Name\<close>,
  \<open>Size\<close>, \<open>Height\<close>, \<open>Area\<close>, \<open>Data_Point\<close>; the last four are the columns
  \<open>Size\<close>, \<open>Height\<close>, \<open>Area\<close>, \<open>Data Point\<close> of the file of row \<open>i\<close>, cell for
  cell in the file's row order, and every cell of \<open>Sample_Name\<close> is the label in column 1
  of row \<open>i\<close> of the key, whatever the file's \<open>Sample File Name\<close> column held.
\<close>

theorem extract_files_aligned:
  assumes "list_all (has_peak_table fs) sample_df" and "i < length sample_df"
  shows "\<exists>df_list raw sn sz h a dp.
     extract_files fs sample_df = Inr df_list \<and>
     length df_list = length sample_df \<and>
     fs (source_path (sample_df ! i)) = Some raw \<and>
     map_of raw ''Sample File Name'' = Some sn \<and> map_of raw ''Size'' = Some sz \<and>
     map_of raw ''Height'' = Some h \<and> map_of raw ''Area'' = Some a \<and>
     map_of raw ''Data Point'' = Some dp \<and>
     df_list ! i =
       [(''Sample_Name'', replicate (length sn) (region_name (sample_df ! i))),
        (''Size'', sz), (''Height'', h), (''Area'', a), (''Data_Point'', dp)]"
proof -
  have all: "\<And>d. d \<in> set sample_df \<Longrightarrow> has_peak_table fs d"
    using assms(1) by (simp add: list_all_iff)
  have ok: "\<And>d. d \<in> set sample_df \<Longrightarrow> \<exists>x. extract_one fs d = Inr x"
  proof -
    fix d assume "d \<in> set sample_df"
    from has_peak_table_columns [OF all [OF this]] obtain raw sn sz h a dp where
      "fs (source_path d) = Some raw"
      "map_of raw ''Sample File Name'' = Some sn" "map_of raw ''Size'' = Some sz"
      "map_of raw ''Height'' = Some h" "map_of raw ''Area'' = Some a"
      "map_of raw ''Data Point'' = Some dp"
      by blast
    then show "\<exists>x. extract_one fs d = Inr x"
      using extract_one_closed by blast
  qed
  let ?out = "map (\<lambda>d. projr (extract_one fs d)) sample_df"
  have e: "extract_files fs sample_df = Inr ?out"
    using ok by (rule extract_files_closed)
  have "sample_df ! i \<in> set sample_df" using assms(2) by simp
  from has_peak_table_columns [OF all [OF this]] obtain raw sn sz h a dp where
    c: "fs (source_path (sample_df ! i)) = Some raw"
      "map_of raw ''Sample File Name'' = Some sn" "map_of raw ''Size'' = Some sz"
      "map_of raw ''Height'' = Some h" "map_of raw ''Area'' = Some a"
      "map_of raw ''Data Point'' = Some dp"
    by blast
  have "?out ! i =
       [(''Sample_Name'', replicate (length sn) (region_name (sample_df ! i))),
        (''Size'', sz), (''Height'', h), (''Area'', a), (''Data_Point'', dp)]"
    using assms(2) extract_one_closed [of fs "sample_df ! i", OF c] by simp
  moreover have "length ?out = length sample_df" by simp
  ultimately show ?thesis using e c by blast
qed

theorem extract_files_aligned_witness:
  "list_all (has_peak_table example_fs) [key_1000_180] \<and>
   (0 :: nat) < length [key_1000_180] \<and>
   (\<exists>df_list raw sn sz h a dp.
     extract_files example_fs [key_1000_180] = Inr df_list \<and>
     length df_list = length [key_1000_180] \<and>
     example_fs (source_path ([key_1000_180] ! 0)) = Some raw \<and>
     map_of raw ''Sample File Name'' = Some sn \<and> map_of raw ''Size'' = Some sz \<and>
     map_of raw ''Height'' = Some h \<and> map_of raw ''Area'' = Some a \<and>
     map_of raw ''Data Point'' = Some dp \<and>
     df_list ! 0 =
       [(''Sample_Name'', replicate (length sn) (region_name ([key_1000_180] ! 0))),
        (''Size'', sz), (''Height'', h), (''Area'', a), (''Data_Point'', dp)]) \<and>
   extract_files example_fs [key_1000_180] =
     Inr [[(''Sample_Name'', [Str ''PT8_region1'', Str ''PT8_region1'', Str ''PT8_region1'']),
           (''Size'', [Num 185, Num 190, Num 195]),
           (''Height'', [Num 50, Num 20, Num 5]),
           (''Area'', [Num 400, Num 160, Num 40]),
           (''Data_Point'', [Num 3040, Num 3090, Num 3140])]]"
proof -
  have h1: "list_all (has_peak_table example_fs) [key_1000_180]" by code_simp
  have h2: "(0 :: nat) < length [key_1000_180]" by simp
  have v: "extract_files example_fs [key_1000_180] =
     Inr [[(''Sample_Name'', [Str ''PT8_region1'', Str ''PT8_region1'', Str ''PT8_region1'']),
           (''Size'', [Num 185, Num 190, Num 195]),
           (''Height'', [Num 50, Num 20, Num 5]),
           (''Area'', [Num 400, Num 160, Num 40]),
           (''Data_Point'', [Num 3040, Num 3090, Num 3140])]]"
    by code_simp
  from extract_files_aligned [OF h1 h2] h1 h2 v show ?thesis by blast
qed

section \<open>Expansion selector\<close>

text \<open>The index labels of a subset cut from a table that \<^verbatim>\<open>read_csv\<close> labelled are
  the positions its rows had in that table, so they are distinct.\<close>

lemma zip_upt_label:
  "(l, r) \<in> set (zip [k ..< k + length rs] rs) \<Longrightarrow> k \<le> l \<and> l < k + length rs \<and> rs ! (l - k) = r"
  by (auto simp: set_zip)

lemma selected_labels_are_positions:
  assumes "(l, r) \<in> set (rows (boolean_mask m (peak_table rs)))"
  shows "l < length rs \<and> rs ! l = r \<and> m r"
proof -
  from assms have "(l, r) \<in> set (zip [0 ..< 0 + length rs] rs)" and "m r"
    by (auto simp: boolean_mask_def peak_table_def)
  from zip_upt_label [OF this(1)] \<open>m r\<close> show ?thesis by simp
qed

lemma selected_labels_distinct:
  "distinct (index_labels (boolean_mask m (peak_table rs)))"
proof -
  have "distinct (map fst (zip [0 ..< length rs] rs))" by (simp add: map_fst_zip)
  then show ?thesis
    by (simp add: index_labels_def boolean_mask_def peak_table_def distinct_map_filter)
qed



section \<open>Total signal mass\<close>



section \<open>Weights: distance from the highest peak\<close>

text \<open>
  Claim C1. For tables that are not empty and whose index labels are distinct (what the
  selector hands over), the calculator returns, and the row at position \<open>j\<close> of region
  \<open>i\<close> keeps its label and gets \<open>change_from_main = current_index - max_index + 1\<close>,
  where \<open>max_index\<close> is the index label of the first row of the subset that holds the
  largest height of the subset, and \<open>current_index\<close> is the index label of the first row
  of the subset whose height equals the height of row \<open>j\<close>. The index labels are the row
  positions in the table the subset was cut from (\<open>selected_labels_are_positions\<close>), not
  the positions inside the subset: in the example below the subset keeps rows 0, 1 and 5 of
  its table, and row 5 gets 5 - 0 + 1 = 6.
\<close>

theorem change_from_main_formula:
  assumes "\<forall>df \<in> set dfs. rows df \<noteq> [] \<and> distinct (index_labels df)"
    and "length dfs \<le> length mhs" and "i < length dfs"
    and "j < length (rows (dfs ! i))"
  shows "\<exists>out idx max_index rm current_index rc.
     calc_instability_index dfs mhs = Inr (out, idx) \<and>
     find (\<lambda>(l, r). Height r = Max (set (map (\<lambda>(l, r). Height r) (rows (dfs ! i)))))
          (rows (dfs ! i)) = Some (max_index, rm) \<and>
     find (\<lambda>(l, r). Height r = Height (snd (rows (dfs ! i) ! j))) (rows (dfs ! i))
       = Some (current_index, rc) \<and>
     fst (rows (out ! i) ! j) = fst (rows (dfs ! i) ! j) \<and>
     change_from_main (snd (rows (out ! i) ! j)) =
       Fin (of_int (int current_index - int max_index + 1))"
proof -
  from calc_row [OF assms] obtain out idx where
    c: "calc_instability_index dfs mhs = Inr (out, idx)" and
    r: "rows (out ! i) ! j =
         (fst (rows (dfs ! i) ! j), annotated_row (dfs ! i) (mhs ! i) (snd (rows (dfs ! i) ! j)))"
    by blast
  have m: "(fst (rows (dfs ! i) ! j), snd (rows (dfs ! i) ! j)) \<in> set (rows (dfs ! i))"
    using assms(4) by simp
  from change_of_find [OF m] obtain mi rm ci rc where
    "find (\<lambda>(l, r). Height r = Max (set (map (\<lambda>(l, r). Height r) (rows (dfs ! i)))))
          (rows (dfs ! i)) = Some (mi, rm)"
    "find (\<lambda>(l, r). Height r = Height (snd (rows (dfs ! i) ! j))) (rows (dfs ! i))
       = Some (ci, rc)"
    "change_of (dfs ! i) (Height (snd (rows (dfs ! i) ! j))) = Fin (of_int (int ci - int mi + 1))"
    by blast
  moreover from this(3) have "change_from_main (snd (rows (out ! i) ! j)) =
      Fin (of_int (int ci - int mi + 1))"
    by (simp add: r annotated_row_def Let_def)
  moreover have "fst (rows (out ! i) ! j) = fst (rows (dfs ! i) ! j)" by (simp add: r)
  ultimately show ?thesis using c by blast
qed

theorem change_from_main_formula_witness:
  "rows (boolean_mask (expansion_mask 10 1000 180) (peak_table boundary_peaks)) \<noteq> [] \<and>
   distinct (index_labels (boolean_mask (expansion_mask 10 1000 180) (peak_table boundary_peaks))) \<and>
   length [boolean_mask (expansion_mask 10 1000 180) (peak_table boundary_peaks)]
     \<le> length [1000 :: rat] \<and>
   (0 :: nat) < length [boolean_mask (expansion_mask 10 1000 180) (peak_table boundary_peaks)] \<and>
   (2 :: nat) < length (rows ([boolean_mask (expansion_mask 10 1000 180)
                                 (peak_table boundary_peaks)] ! 0)) \<and>
   (\<exists>out idx max_index rm current_index rc.
     calc_instability_index
       [boolean_mask (expansion_mask 10 1000 180) (peak_table boundary_peaks)] [1000]
       = Inr (out, idx) \<and>
     find (\<lambda>(l, r). Height r =
             Max (set (map (\<lambda>(l, r). Height r)
               (rows ([boolean_mask (expansion_mask 10 1000 180)
                         (peak_table boundary_peaks)] ! 0)))))
          (rows ([boolean_mask (expansion_mask 10 1000 180) (peak_table boundary_peaks)] ! 0))
       = Some (max_index, rm) \<and>
     find (\<lambda>(l, r). Height r =
             Height (snd (rows ([boolean_mask (expansion_mask 10 1000 180)
                                   (peak_table boundary_peaks)] ! 0) ! 2)))
          (rows ([boolean_mask (expansion_mask 10 1000 180) (peak_table boundary_peaks)] ! 0))
       = Some (current_index, rc) \<and>
     fst (rows (out ! 0) ! 2) =
       fst (rows ([boolean_mask (expansion_mask 10 1000 180)
                     (peak_table boundary_peaks)] ! 0) ! 2) \<and>
     change_from_main (snd (rows (out ! 0) ! 2)) =
       Fin (of_int (int current_index - int max_index + 1))) \<and>
   index_labels (boolean_mask (expansion_mask 10 1000 180) (peak_table boundary_peaks))
     = [0, 1, 5] \<and>
   map_sum id (\<lambda>(out, idx). map (\<lambda>df. map (\<lambda>(l, r). (l, change_from_main r)) (rows df)) out)
     (calc_instability_index
        [boolean_mask (expansion_mask 10 1000 180) (peak_table boundary_peaks)] [1000])
     = Inr [[(0, Fin 1), (1, Fin 2), (5, Fin 6)]]"
proof -
  let ?df = "boolean_mask (expansion_mask 10 1000 180) (peak_table boundary_peaks)"
  have h0: "rows ?df \<noteq> [] \<and> distinct (index_labels ?df)" by code_simp
  then have h1: "\<forall>df \<in> set [?df]. rows df \<noteq> [] \<and> distinct (index_labels df)" by simp
  have h2: "length [?df] \<le> length [1000 :: rat]" by simp
  have h3: "(0 :: nat) < length [?df]" by simp
  have h4: "(2 :: nat) < length (rows ([?df] ! 0))" by code_simp
  have v: "index_labels ?df = [0, 1, 5] \<and>
    map_sum id (\<lambda>(out, idx). map (\<lambda>df. map (\<lambda>(l, r). (l, change_from_main r)) (rows df)) out)
      (calc_instability_index [?df] [1000])
      = Inr [[(0, Fin 1), (1, Fin 2), (5, Fin 6)]]"
    by code_simp
  from change_from_main_formula [OF h1 h2 h3 h4] h0 h2 h3 h4 v show ?thesis by blast
qed



section \<open>Rounding\<close>



section \<open>Empty subsets and zero signal mass\<close>

text \<open>
  Claim C2. The claim says that a region with an empty subset gets the index 0. In the
  code the two cell-by-cell loops never run for an empty table, so the column
  \<open>normalized_Peak\<close> is never created and reading it raises AttributeError: here on a
  table none of whose peaks passes the selector. The height sum of the region, 1000, equals
  its modal height, and only the column \<open>normalized_Height\<close> is added. Lemma
  \<open>calc_fails_on_empty_subset\<close> shows the same for every call that has an empty subset
  among its tables.
\<close>

theorem empty_subset_raises_AttributeError:
  "exp_peak_subset [key_1000_180] [peak_table low_peaks] =
     Inr ([\<lparr>rows = [], columns = base_columns\<rparr>], [1000]) \<and>
   normalize_loop [\<lparr>rows = [], columns = base_columns\<rparr>] [1000] =
     Inr ([\<lparr>rows = [], columns = base_columns @ [''normalized_Height'']\<rparr>], [1000]) \<and>
   calc_instability_index [\<lparr>rows = [], columns = base_columns\<rparr>] [1000] = Inl AttributeError \<and>
   instability_pipeline [key_1000_180] [peak_table low_peaks] = Inl AttributeError"
  by code_simp

text \<open>
  Claim C7, as stated, fails: with modal height 0 and an empty subset the calculator
  raises AttributeError, as for any empty subset, not DegenerateInputError.
\<close>

theorem zero_mass_empty_subset_counterexample:
  "exp_peak_subset [key_1000_180\<lparr>modal_height := 0\<rparr>] [peak_table low_peaks] =
     Inr ([\<lparr>rows = [], columns = base_columns\<rparr>], [0]) \<and>
   normalize_loop [\<lparr>rows = [], columns = base_columns\<rparr>] [0] =
     Inr ([\<lparr>rows = [], columns = base_columns @ [''normalized_Height'']\<rparr>], [0]) \<and>
   calc_instability_index [\<lparr>rows = [], columns = base_columns\<rparr>] [0] = Inl AttributeError \<and>
   calc_instability_index [\<lparr>rows = [], columns = base_columns\<rparr>] [0] \<noteq> Inl DegenerateInputError"
  by code_simp

text \<open>
  Claim C7, amended. The calculator has no guard for a zero signal mass: it never fails
  with DegenerateInputError, whatever its input. For a subset that is not empty and has total
  signal mass 0 (modal height 0 and every height 0, the only such subsets the selector
  produces) it divides by zero without failing: every \<open>normalized_Height\<close> and
  \<open>normalized_Peak\<close> of the region is NaN and the region's index is 0.
\<close>

theorem zero_mass_is_not_guarded:
  "calc_instability_index dfs mhs \<noteq> Inl DegenerateInputError \<and>
   (rows df \<noteq> [] \<and> distinct (index_labels df) \<and> list_all (\<lambda>(l, r). Height r = 0) (rows df) \<longrightarrow>
      Height_sum df + 0 = 0 \<and>
      (\<exists>out. calc_instability_index [df] [0] = Inr ([out], [Fin 0]) \<and>
         length (rows out) = length (rows df) \<and>
         list_all (\<lambda>(l, r). normalized_Height r = NaN \<and> normalized_Peak r = NaN) (rows out)))"
proof (intro conjI impI)
  show "calc_instability_index dfs mhs \<noteq> Inl DegenerateInputError"
    using calc_error [of dfs mhs DegenerateInputError] by auto
next
  assume a: "rows df \<noteq> [] \<and> distinct (index_labels df) \<and>
    list_all (\<lambda>(l, r). Height r = 0) (rows df)"
  then have z: "\<forall>(l, r) \<in> set (rows df). Height r = 0" by (simp add: list_all_iff)
  then have hs: "Height_sum df = 0" by (rule Height_sum_zero)
  then show "Height_sum df + 0 = 0" by simp
  have c: "calc_instability_index [df] [0] = Inr ([annotate df 0], [index_value df 0])"
    using a calc_success [of "[df]" "[0]"] by simp
  have r: "rows (annotate df 0) = map (\<lambda>(l, r). (l, annotated_row df 0 r)) (rows df)"
    using a by (intro annotate_rows) simp
  have n: "\<And>l r. (l, r) \<in> set (rows df) \<Longrightarrow>
      normalized_Height (annotated_row df 0 r) = NaN \<and> normalized_Peak (annotated_row df 0 r) = NaN"
  proof -
    fix l r assume "(l, r) \<in> set (rows df)"
    with z have "Height r = 0" by auto
    then have "fl_div (Height r) (Height_sum df + 0) = NaN" by (simp add: fl_div_def hs)
    then show "normalized_Height (annotated_row df 0 r) = NaN \<and>
        normalized_Peak (annotated_row df 0 r) = NaN"
      by (simp add: annotated_row_def Let_def)
  qed
  have la: "list_all (\<lambda>(l, r). normalized_Height r = NaN \<and> normalized_Peak r = NaN)
      (rows (annotate df 0))"
    unfolding r using n by (auto simp: list_all_iff)
  then have "\<forall>c \<in> set (map (\<lambda>(l, r). normalized_Peak r) (rows (annotate df 0))). c = NaN"
    by (auto simp: list_all_iff)
  then have "fl_sum (map (\<lambda>(l, r). normalized_Peak r) (rows (annotate df 0))) = Fin 0"
    by (rule fl_sum_all_NaN)
  then have i: "index_value df 0 = Fin 0" by (simp add: index_value_def)
  have "length (rows (annotate df 0)) = length (rows df)" by (simp add: r)
  with c i la show "\<exists>out. calc_instability_index [df] [0] = Inr ([out], [Fin 0]) \<and>
         length (rows out) = length (rows df) \<and>
         list_all (\<lambda>(l, r). normalized_Height r = NaN \<and> normalized_Peak r = NaN) (rows out)"
    by simp
qed

theorem zero_mass_is_not_guarded_witness:
  "calc_instability_index [peak_table zero_peaks] [0] \<noteq> Inl DegenerateInputError \<and>
   rows (peak_table zero_peaks) \<noteq> [] \<and> distinct (index_labels (peak_table zero_peaks)) \<and>
   list_all (\<lambda>(l, r). Height r = 0) (rows (peak_table zero_peaks)) \<and>
   Height_sum (peak_table zero_peaks) + 0 = 0 \<and>
   (\<exists>out. calc_instability_index [peak_table zero_peaks] [0] = Inr ([out], [Fin 0]) \<and>
      length (rows out) = length (rows (peak_table zero_peaks)) \<and>
      list_all (\<lambda>(l, r). normalized_Height r = NaN \<and> normalized_Peak r = NaN) (rows out))"
proof -
  have h: "rows (peak_table zero_peaks) \<noteq> [] \<and> distinct (index_labels (peak_table zero_peaks)) \<and>
     list_all (\<lambda>(l, r). Height r = 0) (rows (peak_table zero_peaks))"
    by code_simp
  from zero_mass_is_not_guarded [of "[peak_table zero_peaks]" "[0]" "peak_table zero_peaks"] h
  show ?thesis by blast
qed

section \<open>The scenario of the specification\<close>

text \<open>
  Claim C3, as stated, fails: the third peak has height 5, below 0.01 * 1000 = 10, so the
  selector keeps two peaks, not three; and even on all three peaks the calculator's weights
  are 1, 2, 3 (later rows count up), not 1, 0, -1, and the index is 0.1.
\<close>

theorem scenario_counterexample:
  "exp_peak_subset [key_1000_180] [peak_table scenario_peaks] =
     Inr ([\<lparr>rows = [(0, scenario_peaks ! 0), (1, scenario_peaks ! 1)],
             columns = base_columns\<rparr>], [1000]) \<and>
   Height (scenario_peaks ! 2) = 5 \<and>
   \<not> Height (scenario_peaks ! 2) \<ge> modal_height key_1000_180 * (1 / 100) \<and>
   calc_instability_index [peak_table scenario_peaks] [1000] =
     Inr ([\<lparr>rows = [(0, (scenario_peaks ! 0)\<lparr>normalized_Height := Fin (47 / 1000),
                         change_from_main := Fin 1, normalized_Peak := Fin (47 / 1000)\<rparr>),
                   (1, (scenario_peaks ! 1)\<lparr>normalized_Height := Fin (19 / 1000),
                         change_from_main := Fin 2, normalized_Peak := Fin (38 / 1000)\<rparr>),
                   (2, (scenario_peaks ! 2)\<lparr>normalized_Height := Fin (5 / 1000),
                         change_from_main := Fin 3, normalized_Peak := Fin (15 / 1000)\<rparr>)],
             columns = base_columns @
               [''normalized_Height'', ''change_from_main'', ''normalized_Peak'']\<rparr>],
          [Fin (100 / 1000)])"
  by code_simp

text \<open>
  Claim C3, amended. For modal height 1000, modal size 180 and the peaks (185, 50),
  (190, 20), (195, 5), the first two peaks are selected, the total signal mass is 1070, the
  normalized heights are 0.047 and 0.019, the weights \<open>change_from_main\<close> are 1 and 2,
  the normalized peaks are 0.047 and 0.038, and the instability index is 0.085.
\<close>

theorem scenario_values:
  "exp_peak_subset [key_1000_180] [peak_table scenario_peaks] =
     Inr ([\<lparr>rows = [(0, scenario_peaks ! 0), (1, scenario_peaks ! 1)],
             columns = base_columns\<rparr>], [1000]) \<and>
   normalize_loop [\<lparr>rows = [(0, scenario_peaks ! 0), (1, scenario_peaks ! 1)],
                    columns = base_columns\<rparr>] [1000] =
     Inr ([\<lparr>rows = [(0, (scenario_peaks ! 0)\<lparr>normalized_Height := Fin (47 / 1000)\<rparr>),
                   (1, (scenario_peaks ! 1)\<lparr>normalized_Height := Fin (19 / 1000)\<rparr>)],
             columns = base_columns @ [''normalized_Height'']\<rparr>], [1070]) \<and>
   instability_pipeline [key_1000_180] [peak_table scenario_peaks] =
     Inr ([\<lparr>rows = [(0, (scenario_peaks ! 0)\<lparr>normalized_Height := Fin (47 / 1000),
                         change_from_main := Fin 1, normalized_Peak := Fin (47 / 1000)\<rparr>),
                   (1, (scenario_peaks ! 1)\<lparr>normalized_Height := Fin (19 / 1000),
                         change_from_main := Fin 2, normalized_Peak := Fin (38 / 1000)\<rparr>)],
             columns = base_columns @
               [''normalized_Height'', ''change_from_main'', ''normalized_Peak'']\<rparr>],
          [Fin (85 / 1000)])"
  by code_simp

end
